theory Spec2Isabelle
  imports Complex_Main "HOL-Library.AList"
begin

section \<open>Python values\<close>

text \<open>
  The strategy engine of \<^verbatim>\<open>src/strategies\<close> is embedded function by function.
  Exceptions are values of \<open>pyerror\<close>; a function that may raise returns
  \<open>pyerror + 'a\<close> with \<open>Inl\<close> for the exception. Only subclasses of Python's
  \<^verbatim>\<open>Exception\<close> occur. Calls to the logger have no effect on any value and are left out.
\<close>

datatype pyerror = IndexError | KeyError | NotImplementedError

definition bind_err :: "pyerror + 'a \<Rightarrow> ('a \<Rightarrow> pyerror + 'b) \<Rightarrow> pyerror + 'b" where
  "bind_err r f = (case r of Inl e \<Rightarrow> Inl e | Inr v \<Rightarrow> f v)"

text \<open>
  Floating-point numbers are idealised: a finite float is an exact rational, and the
  special values that numpy produces instead of raising (\<^verbatim>\<open>nan\<close> for the mean of an
  empty array, \<^verbatim>\<open>inf\<close> for a division by zero) are kept as values of their own.
  Rounding, overflow and the sign of zero are not modelled. Every comparison with
  \<^verbatim>\<open>nan\<close> is false, as in IEEE 754.
\<close>

datatype pyfloat = Fin rat | Inf bool | NaN

fun fneg :: "pyfloat \<Rightarrow> pyfloat" where
  "fneg (Fin a) = Fin (- a)"
| "fneg (Inf s) = Inf (\<not> s)"
| "fneg NaN = NaN"

fun fadd :: "pyfloat \<Rightarrow> pyfloat \<Rightarrow> pyfloat" where
  "fadd (Fin a) (Fin b) = Fin (a + b)"
| "fadd (Fin a) (Inf s) = Inf s"
| "fadd (Inf s) (Fin b) = Inf s"
| "fadd (Inf s) (Inf t) = (if s = t then Inf s else NaN)"
| "fadd NaN _ = NaN"
| "fadd _ NaN = NaN"

definition fsub :: "pyfloat \<Rightarrow> pyfloat \<Rightarrow> pyfloat" where
  "fsub a b = fadd a (fneg b)"

fun fmul :: "pyfloat \<Rightarrow> pyfloat \<Rightarrow> pyfloat" where
  "fmul (Fin a) (Fin b) = Fin (a * b)"
| "fmul (Fin a) (Inf s) = (if a = 0 then NaN else Inf (s = (0 < a)))"
| "fmul (Inf s) (Fin b) = (if b = 0 then NaN else Inf (s = (0 < b)))"
| "fmul (Inf s) (Inf t) = Inf (s = t)"
| "fmul NaN _ = NaN"
| "fmul _ NaN = NaN"

fun fdiv :: "pyfloat \<Rightarrow> pyfloat \<Rightarrow> pyfloat" where
  "fdiv (Fin a) (Fin b) =
     (if b = 0 then (if a = 0 then NaN else Inf (0 < a)) else Fin (a / b))"
| "fdiv (Fin a) (Inf s) = Fin 0"
| "fdiv (Inf s) (Fin b) = Inf (s = (0 \<le> b))"
| "fdiv (Inf s) (Inf t) = NaN"
| "fdiv NaN _ = NaN"
| "fdiv _ NaN = NaN"

fun flt :: "pyfloat \<Rightarrow> pyfloat \<Rightarrow> bool" where
  "flt (Fin a) (Fin b) = (a < b)"
| "flt (Fin a) (Inf s) = s"
| "flt (Inf s) (Fin b) = (\<not> s)"
| "flt (Inf s) (Inf t) = (\<not> s \<and> t)"
| "flt NaN _ = False"
| "flt _ NaN = False"

fun fle :: "pyfloat \<Rightarrow> pyfloat \<Rightarrow> bool" where
  "fle (Fin a) (Fin b) = (a \<le> b)"
| "fle (Fin a) (Inf s) = s"
| "fle (Inf s) (Fin b) = (\<not> s)"
| "fle (Inf s) (Inf t) = (if s then t else True)"
| "fle NaN _ = False"
| "fle _ NaN = False"

definition fgt :: "pyfloat \<Rightarrow> pyfloat \<Rightarrow> bool" where
  "fgt a b = flt b a"

definition fge :: "pyfloat \<Rightarrow> pyfloat \<Rightarrow> bool" where
  "fge a b = fle b a"

fun feq :: "pyfloat \<Rightarrow> pyfloat \<Rightarrow> bool" where
  "feq (Fin a) (Fin b) = (a = b)"
| "feq (Inf s) (Inf t) = (s = t)"
| "feq _ _ = False"

text \<open>\<^verbatim>\<open>np.mean\<close>: the mean of an empty array is \<^verbatim>\<open>nan\<close> (numpy warns, it does not raise).\<close>

definition np_mean :: "rat list \<Rightarrow> pyfloat" where
  "np_mean xs = (if xs = [] then NaN else Fin (sum_list xs / of_nat (length xs)))"

text \<open>\<^verbatim>\<open>np.diff\<close>: the successive differences \<open>xs[k+1] - xs[k]\<close>.\<close>

fun np_diff :: "rat list \<Rightarrow> rat list" where
  "np_diff (x # y # zs) = (y - x) # np_diff (y # zs)"
| "np_diff _ = []"

subsection \<open>Sequences: indexing and slicing\<close>

text \<open>
  \<open>xs[i]\<close> raises IndexError outside \<open>-len \<le> i < len\<close>; a slice never raises, its
  bounds are clamped to \<open>0..len\<close> after negative bounds are shifted by \<open>len\<close>.
\<close>

definition pyindex :: "'a list \<Rightarrow> int \<Rightarrow> pyerror + 'a" where
  "pyindex xs i =
     (if 0 \<le> i \<and> i < int (length xs) then Inr (xs ! nat i)
      else if - int (length xs) \<le> i \<and> i < 0 then Inr (xs ! nat (i + int (length xs)))
      else Inl IndexError)"

definition slice_bound :: "nat \<Rightarrow> int \<Rightarrow> nat" where
  "slice_bound n i = (if i < 0 then nat (max (i + int n) 0) else min (nat i) n)"

definition pyslice :: "'a list \<Rightarrow> int \<Rightarrow> int \<Rightarrow> 'a list" where
  "pyslice xs i j =
     (let lo = slice_bound (length xs) i; hi = slice_bound (length xs) j
      in take (hi - lo) (drop lo xs))"

definition pyslice_from :: "'a list \<Rightarrow> int \<Rightarrow> 'a list" where
  "pyslice_from xs i = drop (slice_bound (length xs) i) xs"

definition pyslice_to :: "'a list \<Rightarrow> int \<Rightarrow> 'a list" where
  "pyslice_to xs j = take (slice_bound (length xs) j) xs"

definition py_range :: "int \<Rightarrow> int \<Rightarrow> int list" where
  "py_range a b = [a..b - 1]"

subsection \<open>Dictionaries and formatted strings\<close>

text \<open>
  A dictionary literal is an association list in insertion order; \<open>d.get(k)\<close> is
  \<open>map_of d k\<close>. An f-string is kept as its pieces: the literal text and the
  interpolated values with their format (\<^verbatim>\<open>:.2f\<close> for a float, plain for an integer).
\<close>

datatype piece = Lit string | F2 pyfloat | D int

datatype pyval =
    Str string
  | FStr "piece list"
  | Num pyfloat
  | IntV int
  | DictV "(string \<times> pyval) list"

type_synonym pydict = "(string \<times> pyval) list"
type_synonym timestamp = string
type_synonym snapshot = "(string \<times> rat list) list"

text \<open>\<^verbatim>\<open>market_data.get(key, [])\<close>\<close>

definition get_series :: "snapshot \<Rightarrow> string \<Rightarrow> rat list" where
  "get_series md k = (case map_of md k of None \<Rightarrow> [] | Some v \<Rightarrow> v)"

section \<open>Trading strategies (trading_strategies.py)\<close>

text \<open>
  The four classes of the module. The parameters that a subclass constructor stores
  are the arguments of its variant.
\<close>

datatype variant =
    Base
  | MA int int
  | RSI int int int
  | VB int rat

record strategy =
  name :: string
  config :: pydict
  active :: bool
  last_signal :: "pydict option"
  variant :: variant

text \<open>\<^verbatim>\<open>TradingStrategy.__init__(name, config=None)\<close>; \<open>config or {}\<close> is the empty
  dictionary for \<open>None\<close>.\<close>

definition TradingStrategy_init :: "string \<Rightarrow> pydict option \<Rightarrow> strategy" where
  "TradingStrategy_init nm cfg =
     \<lparr>name = nm, config = (case cfg of None \<Rightarrow> [] | Some c \<Rightarrow> c),
      active = False, last_signal = None, variant = Base\<rparr>"

definition MovingAverageCrossover_init :: "int \<Rightarrow> int \<Rightarrow> pydict option \<Rightarrow> strategy" where
  "MovingAverageCrossover_init short_window long_window cfg =
     (TradingStrategy_init ''MA Crossover'' cfg)\<lparr>variant := MA short_window long_window\<rparr>"

definition RSIStrategy_init :: "int \<Rightarrow> int \<Rightarrow> int \<Rightarrow> pydict option \<Rightarrow> strategy" where
  "RSIStrategy_init period oversold overbought cfg =
     (TradingStrategy_init ''RSI Strategy'' cfg)\<lparr>variant := RSI period oversold overbought\<rparr>"

definition VolatilityBreakout_init :: "int \<Rightarrow> rat \<Rightarrow> pydict option \<Rightarrow> strategy" where
  "VolatilityBreakout_init lookback_period volatility_factor cfg =
     (TradingStrategy_init ''Volatility Breakout'' cfg)
       \<lparr>variant := VB lookback_period volatility_factor\<rparr>"

definition insufficient_data :: pydict where
  "insufficient_data = [(''signal'', Str ''HOLD''), (''reason'', Str ''Insufficient data'')]"

subsection \<open>MovingAverageCrossover.analyze\<close>

text \<open>The four means of lines 56 to 61: over \<open>prices[-w:]\<close> and over \<open>prices[-w-1:-1]\<close>.\<close>

definition ma_now :: "int \<Rightarrow> rat list \<Rightarrow> pyfloat" where
  "ma_now w prices = np_mean (pyslice_from prices (- w))"

definition ma_prev :: "int \<Rightarrow> rat list \<Rightarrow> pyfloat" where
  "ma_prev w prices = np_mean (pyslice prices (- w - 1) (- 1))"

definition MovingAverageCrossover_analyze ::
  "timestamp \<Rightarrow> int \<Rightarrow> int \<Rightarrow> snapshot \<Rightarrow> pydict" where
  "MovingAverageCrossover_analyze now short_window long_window md =
     (let prices = get_series md ''prices'' in
      if int (length prices) < long_window then insufficient_data
      else
        let short_ma = ma_now short_window prices;
            long_ma = ma_now long_window prices;
            prev_short_ma = ma_prev short_window prices;
            prev_long_ma = ma_prev long_window prices;
            (signal, reason) =
              (if fgt short_ma long_ma \<and> fle prev_short_ma prev_long_ma then
                 (''BUY'', [Lit ''Short MA ('', F2 short_ma, Lit '') crossed above Long MA ('',
                            F2 long_ma, Lit '')''])
               else if flt short_ma long_ma \<and> fge prev_short_ma prev_long_ma then
                 (''SELL'', [Lit ''Short MA ('', F2 short_ma, Lit '') crossed below Long MA ('',
                             F2 long_ma, Lit '')''])
               else (''HOLD'', [Lit ''No crossover detected'']))
        in [(''signal'', Str signal), (''reason'', FStr reason),
            (''short_ma'', Num short_ma), (''long_ma'', Num long_ma),
            (''timestamp'', Str now)])"

subsection \<open>RSIStrategy\<close>

definition calculate_rsi :: "int \<Rightarrow> rat list \<Rightarrow> pyfloat" where
  "calculate_rsi period prices =
     (if int (length prices) \<le> period then Fin 50
      else
        let deltas = np_diff prices;
            gains = map (\<lambda>d. max d 0) deltas;
            losses = map (\<lambda>d. - min d 0) deltas;
            avg_gain = np_mean (pyslice_from gains (- period));
            avg_loss = np_mean (pyslice_from losses (- period))
        in if feq avg_loss (Fin 0) then Fin 100
           else
             let rs = fdiv avg_gain avg_loss
             in fsub (Fin 100) (fdiv (Fin 100) (fadd (Fin 1) rs)))"

definition RSIStrategy_analyze ::
  "timestamp \<Rightarrow> int \<Rightarrow> int \<Rightarrow> int \<Rightarrow> snapshot \<Rightarrow> pydict" where
  "RSIStrategy_analyze now period oversold overbought md =
     (let prices = get_series md ''prices'' in
      if int (length prices) \<le> period then insufficient_data
      else
        let current_rsi = calculate_rsi period prices;
            prev_rsi = calculate_rsi period (pyslice_to prices (- 1));
            (signal, reason) =
              (if flt current_rsi (Fin (of_int oversold)) \<and> fge prev_rsi (Fin (of_int oversold))
               then (''BUY'', [Lit ''RSI ('', F2 current_rsi, Lit '') entered oversold territory''])
               else if fgt current_rsi (Fin (of_int overbought))
                       \<and> fle prev_rsi (Fin (of_int overbought))
               then (''SELL'', [Lit ''RSI ('', F2 current_rsi, Lit '') entered overbought territory''])
               else (''HOLD'', [Lit ''RSI ('', F2 current_rsi, Lit '') not at extreme levels'']))
        in [(''signal'', Str signal), (''reason'', FStr reason),
            (''rsi'', Num current_rsi), (''timestamp'', Str now)])"

subsection \<open>VolatilityBreakout.analyze\<close>

text \<open>
  The loop of lines 187 to 193 over the offsets \<open>i\<close>: each round reads
  \<open>highs[-(i+1)]\<close>, \<open>lows[-(i+1)]\<close> and \<open>closes[-(i+2)]\<close>, any of which may raise.
\<close>

fun true_ranges ::
  "rat list \<Rightarrow> rat list \<Rightarrow> rat list \<Rightarrow> int list \<Rightarrow> rat list \<Rightarrow> pyerror + rat list" where
  "true_ranges highs lows closes [] ranges = Inr ranges"
| "true_ranges highs lows closes (i # rest) ranges =
     bind_err (pyindex highs (- (i + 1))) (\<lambda>h.
     bind_err (pyindex lows (- (i + 1))) (\<lambda>l.
     bind_err (pyindex closes (- (i + 2))) (\<lambda>c.
       true_ranges highs lows closes rest
         (ranges @ [max (max (h - l) (abs (h - c))) (abs (l - c))]))))"

definition VolatilityBreakout_analyze ::
  "timestamp \<Rightarrow> int \<Rightarrow> rat \<Rightarrow> snapshot \<Rightarrow> pyerror + pydict" where
  "VolatilityBreakout_analyze now lookback_period volatility_factor md =
     (let highs = get_series md ''highs'';
          lows = get_series md ''lows'';
          closes = get_series md ''prices'' in
      if int (length closes) < lookback_period then Inr insufficient_data
      else
        bind_err (true_ranges highs lows closes
                    (py_range 1 (min lookback_period (int (length highs)))) []) (\<lambda>ranges.
        let atr = (if ranges \<noteq> [] then np_mean ranges else Fin 0) in
        bind_err (pyindex closes (- 1)) (\<lambda>current_price.
        bind_err (pyindex closes (- 2)) (\<lambda>previous_close.
        let upper_band = fadd (Fin previous_close) (fmul atr (Fin volatility_factor));
            lower_band = fsub (Fin previous_close) (fmul atr (Fin volatility_factor));
            (signal, reason) =
              (if fgt (Fin current_price) upper_band then
                 (''BUY'', [Lit ''Price ('', F2 (Fin current_price),
                            Lit '') broke above upper band ('', F2 upper_band, Lit '')''])
               else if flt (Fin current_price) lower_band then
                 (''SELL'', [Lit ''Price ('', F2 (Fin current_price),
                             Lit '') broke below lower band ('', F2 lower_band, Lit '')''])
               else (''HOLD'', [Lit ''Price ('', F2 (Fin current_price),
                                Lit '') within volatility bands'']))
        in Inr [(''signal'', Str signal), (''reason'', FStr reason), (''atr'', Num atr),
                (''upper_band'', Num upper_band), (''lower_band'', Num lower_band),
                (''timestamp'', Str now)]))))"

subsection \<open>The method \<open>analyze\<close> of a strategy object\<close>

text \<open>
  Dispatch on the class. The base class raises NotImplementedError. A successful call
  stores the signal in \<open>last_signal\<close> and returns it; a call that raises leaves the
  object as it was, since the assignment is the last statement.
\<close>

definition analyze ::
  "timestamp \<Rightarrow> strategy \<Rightarrow> snapshot \<Rightarrow> pyerror + (pydict \<times> strategy)" where
  "analyze now s md =
     bind_err
       (case variant s of
          Base \<Rightarrow> Inl NotImplementedError
        | MA sw lw \<Rightarrow> Inr (MovingAverageCrossover_analyze now sw lw md)
        | RSI p os ob \<Rightarrow> Inr (RSIStrategy_analyze now p os ob md)
        | VB lp vf \<Rightarrow> VolatilityBreakout_analyze now lp vf md)
       (\<lambda>signal. Inr (signal, s\<lparr>last_signal := Some signal\<rparr>))"

definition activate :: "strategy \<Rightarrow> strategy" where
  "activate s = s\<lparr>active := True\<rparr>"

definition deactivate :: "strategy \<Rightarrow> strategy" where
  "deactivate s = s\<lparr>active := False\<rparr>"

section \<open>The strategy manager (strategy_manager.py)\<close>

text \<open>
  The registry \<open>strategies\<close> is a dictionary from names to strategy objects, never
  iterated, so a map; \<open>active_strategies\<close> is a list of names in activation order.
  A method that mutates the manager returns its result together with the new state.
  \<^verbatim>\<open>datetime.now()\<close> is a parameter: one reading for a single call, and for
  \<open>run_strategies\<close> a clock giving the reading at the k-th round of its loop.
\<close>

record manager =
  strategies :: "string \<rightharpoonup> strategy"
  active_strategies :: "string list"
  market_data :: snapshot
  last_update :: "timestamp option"

type_synonym clock = "nat \<Rightarrow> timestamp"
type_synonym results = "(string \<times> pydict) list"

definition StrategyManager_init :: manager where
  "StrategyManager_init =
     \<lparr>strategies = Map.empty, active_strategies = [], market_data = [], last_update = None\<rparr>"

definition add_strategy :: "strategy \<Rightarrow> manager \<Rightarrow> manager" where
  "add_strategy s m = m\<lparr>strategies := (strategies m)(name s \<mapsto> s)\<rparr>"

text \<open>\<open>list.remove\<close> deletes the first occurrence: \<open>remove1\<close>.\<close>

definition remove_strategy :: "string \<Rightarrow> manager \<Rightarrow> bool \<times> manager" where
  "remove_strategy strategy_name m =
     (if strategy_name \<in> dom (strategies m) then
        let m1 = (if strategy_name \<in> set (active_strategies m)
                  then m\<lparr>active_strategies := remove1 strategy_name (active_strategies m)\<rparr>
                  else m)
        in (True, m1\<lparr>strategies := (strategies m1)(strategy_name := None)\<rparr>)
      else (False, m))"

definition activate_strategy :: "string \<Rightarrow> manager \<Rightarrow> bool \<times> manager" where
  "activate_strategy strategy_name m =
     (case strategies m strategy_name of
        None \<Rightarrow> (False, m)
      | Some s \<Rightarrow>
          if strategy_name \<notin> set (active_strategies m) then
            (True, m\<lparr>active_strategies := active_strategies m @ [strategy_name],
                      strategies := (strategies m)(strategy_name \<mapsto> activate s)\<rparr>)
          else (True, m))"

definition deactivate_strategy :: "string \<Rightarrow> manager \<Rightarrow> bool \<times> manager" where
  "deactivate_strategy strategy_name m =
     (case strategies m strategy_name of
        None \<Rightarrow> (False, m)
      | Some s \<Rightarrow>
          if strategy_name \<in> set (active_strategies m) then
            (True, m\<lparr>active_strategies := remove1 strategy_name (active_strategies m),
                      strategies := (strategies m)(strategy_name \<mapsto> deactivate s)\<rparr>)
          else (True, m))"

definition update_market_data :: "timestamp \<Rightarrow> snapshot \<Rightarrow> manager \<Rightarrow> manager" where
  "update_market_data now md m = m\<lparr>market_data := md, last_update := Some now\<rparr>"

text \<open>
  The loop of \<open>run_strategies\<close> (lines 77 to 84). The lookup
  \<open>self.strategies[strategy_name]\<close> stands before the \<open>try\<close>, so its KeyError leaves
  the method; an exception of \<open>analyze\<close> is caught and the round adds nothing.
  The debug line inside the \<open>try\<close> reads \<open>signal['signal']\<close> after the result is
  stored; every dictionary returned by an \<open>analyze\<close> of the module has that key, so
  the line never raises. The state is returned in both cases, since earlier rounds
  have already stored their signals in the strategy objects.
\<close>

fun run_loop ::
  "clock \<Rightarrow> nat \<Rightarrow> string list \<Rightarrow> results \<Rightarrow> manager \<Rightarrow> (pyerror + results) \<times> manager" where
  "run_loop clk k [] results m = (Inr results, m)"
| "run_loop clk k (strategy_name # rest) results m =
     (case strategies m strategy_name of
        None \<Rightarrow> (Inl KeyError, m)
      | Some strategy \<Rightarrow>
          (case analyze (clk k) strategy (market_data m) of
             Inl e \<Rightarrow> run_loop clk (Suc k) rest results m
           | Inr (signal, strategy') \<Rightarrow>
               run_loop clk (Suc k) rest (AList.update strategy_name signal results)
                 (m\<lparr>strategies := (strategies m)(strategy_name \<mapsto> strategy')\<rparr>)))"

definition run_strategies :: "clock \<Rightarrow> manager \<Rightarrow> (pyerror + results) \<times> manager" where
  "run_strategies clk m =
     (if market_data m = [] then (Inr [], m)
      else run_loop clk 0 (active_strategies m) [] m)"

text \<open>
  \<open>get_consensus_signal\<close>: \<open>consensus_of\<close> is the body after the call of
  \<open>run_strategies\<close> (lines 92 to 119), as a function of the signals collected.
\<close>

definition count_signal :: "string \<Rightarrow> results \<Rightarrow> int" where
  "count_signal kind signals =
     int (length (filter (\<lambda>s. map_of s ''signal'' = Some (Str kind)) (map snd signals)))"

definition consensus_of :: "timestamp \<Rightarrow> results \<Rightarrow> pydict" where
  "consensus_of now signals =
     (if signals = [] then
        [(''signal'', Str ''HOLD''), (''reason'', Str ''No active strategies'')]
      else
        let buy_count = count_signal ''BUY'' signals;
            sell_count = count_signal ''SELL'' signals;
            hold_count = count_signal ''HOLD'' signals;
            total = int (length signals);
            (signal, reason) =
              (if buy_count > sell_count \<and> buy_count > hold_count then
                 (''BUY'', [Lit ''Majority consensus: '', D buy_count, Lit ''/'', D total,
                            Lit '' strategies recommend BUY''])
               else if sell_count > buy_count \<and> sell_count > hold_count then
                 (''SELL'', [Lit ''Majority consensus: '', D sell_count, Lit ''/'', D total,
                             Lit '' strategies recommend SELL''])
               else (''HOLD'', [Lit ''No clear consensus or majority HOLD: '', D hold_count,
                                Lit ''/'', D total, Lit '' strategies'']))
        in [(''signal'', Str signal), (''reason'', FStr reason),
            (''buy_count'', IntV buy_count), (''sell_count'', IntV sell_count),
            (''hold_count'', IntV hold_count), (''timestamp'', Str now),
            (''details'', DictV (map (\<lambda>(n, s). (n, DictV s)) signals))])"

definition get_consensus_signal ::
  "clock \<Rightarrow> timestamp \<Rightarrow> manager \<Rightarrow> (pyerror + pydict) \<times> manager" where
  "get_consensus_signal clk now m =
     (case run_strategies clk m of
        (Inl e, m') \<Rightarrow> (Inl e, m')
      | (Inr signals, m') \<Rightarrow> (Inr (consensus_of now signals), m'))"

definition create_default_strategies :: "manager \<Rightarrow> manager" where
  "create_default_strategies m =
     (let m1 = add_strategy (MovingAverageCrossover_init 10 30 None) m;
          m2 = add_strategy (MovingAverageCrossover_init 20 50
                 (Some [(''name'', Str ''MA Crossover Medium'')])) m1;
          m3 = add_strategy (RSIStrategy_init 14 30 70 None) m2;
          m4 = add_strategy (RSIStrategy_init 7 25 75
                 (Some [(''name'', Str ''RSI Aggressive'')])) m3
      in add_strategy (VolatilityBreakout_init 20 (3 / 2) None) m4)"

subsection \<open>Manager states\<close>

text \<open>
  A manager state is what a sequence of calls of the public methods produces from a
  new \<open>StrategyManager()\<close>.
\<close>

datatype api_call =
    Add strategy
  | Remove string
  | Activate string
  | Deactivate string
  | Update timestamp snapshot
  | Run clock
  | Consensus clock timestamp
  | CreateDefaults

fun perform :: "manager \<Rightarrow> api_call \<Rightarrow> manager" where
  "perform m (Add s) = add_strategy s m"
| "perform m (Remove n) = snd (remove_strategy n m)"
| "perform m (Activate n) = snd (activate_strategy n m)"
| "perform m (Deactivate n) = snd (deactivate_strategy n m)"
| "perform m (Update now md) = update_market_data now md m"
| "perform m (Run clk) = snd (run_strategies clk m)"
| "perform m (Consensus clk now) = snd (get_consensus_signal clk now m)"
| "perform m CreateDefaults = create_default_strategies m"

definition manager_after :: "api_call list \<Rightarrow> manager" where
  "manager_after calls = foldl perform StrategyManager_init calls"

subsection \<open>Auxiliary definitions for the properties\<close>

text \<open>
  The invariant of the manager: no name is twice in the active list, and every active
  name is registered.
\<close>

definition manager_inv :: "manager \<Rightarrow> bool" where
  "manager_inv m \<longleftrightarrow>
     distinct (active_strategies m) \<and> set (active_strategies m) \<subseteq> dom (strategies m)"

text \<open>
  What one round of the loop of \<open>run_strategies\<close> contributes: nothing when the
  strategy raises, the pair of its name and signal otherwise. The argument is the
  number of the round and the name.
\<close>

definition round_result :: "clock \<Rightarrow> manager \<Rightarrow> nat \<times> string \<Rightarrow> (string \<times> pydict) option" where
  "round_result clk m = (\<lambda>(j, n).
     case strategies m n of
       None \<Rightarrow> None
     | Some s \<Rightarrow> (case analyze (clk j) s (market_data m) of
                    Inl e \<Rightarrow> None
                  | Inr (signal, s') \<Rightarrow> Some (n, signal)))"

text \<open>A clock that stands still, and a manager with two active strategies and four
  prices: the crossover signals BUY, the RSI has too few prices and signals HOLD.\<close>

definition frozen_clock :: "timestamp \<Rightarrow> clock" where
  "frozen_clock t k = t"

definition tie_manager :: manager where
  "tie_manager =
     \<lparr>strategies = [''MA Crossover'' \<mapsto> activate (MovingAverageCrossover_init 1 2 None),
                    ''RSI Strategy'' \<mapsto> activate (RSIStrategy_init 14 30 70 None)],
      active_strategies = [''MA Crossover'', ''RSI Strategy''],
      market_data = [(''prices'', [3, 2, 1, 5])],
      last_update = Some ''t0''\<rparr>"

definition demo_signal :: pydict where
  "demo_signal =
     [(''signal'', Str ''BUY''),
      (''reason'', FStr [Lit ''Short MA ('', F2 (Fin 5), Lit '') crossed above Long MA ('',
                         F2 (Fin 3), Lit '')'']),
      (''short_ma'', Num (Fin 5)), (''long_ma'', Num (Fin 3)), (''timestamp'', Str ''t1'')]"

text \<open>A sequence of calls: a strategy of the base class, whose \<open>analyze\<close> raises, and
  a crossover strategy, both activated, then market data.\<close>

definition demo_calls :: "api_call list" where
  "demo_calls =
     [Add (TradingStrategy_init ''Broken'' None),
      Add (MovingAverageCrossover_init 1 2 None),
      Activate ''Broken'',
      Activate ''MA Crossover'',
      Update ''t0'' [(''prices'', [3, 2, 1, 5])]]"

text \<open>A sequence of calls that registers and activates a crossover strategy and sets
  no market data.\<close>

definition idle_calls :: "api_call list" where
  "idle_calls = [Add (MovingAverageCrossover_init 1 2 None), Activate ''MA Crossover'']"

section \<open>Properties of the strategies\<close>

subsection \<open>Floats, sequences\<close>

lemma fgt_not_fle: "fgt a b \<Longrightarrow> \<not> fle a b"
  by (cases a; cases b) (auto simp: fgt_def)

lemma fgt_not_flt: "fgt a b \<Longrightarrow> \<not> flt a b"
  by (cases a; cases b) (auto simp: fgt_def)

lemma pyindex_error: "pyindex xs i = Inl e \<Longrightarrow> e = IndexError"
  by (simp add: pyindex_def Let_def split: if_splits)

lemma length_np_diff: "length (np_diff xs) = length xs - 1"
  by (induction xs rule: np_diff.induct) auto

lemma np_diff_sorted: "sorted xs \<Longrightarrow> \<forall>d \<in> set (np_diff xs). 0 \<le> d"
  by (induction xs rule: np_diff.induct) auto

lemma sum_list_zeros: "\<forall>x \<in> set xs. x = (0::rat) \<Longrightarrow> sum_list xs = 0"
  by (induction xs) auto

lemma np_mean_zeros: "\<forall>x \<in> set xs. x = 0 \<Longrightarrow> np_mean xs = (if xs = [] then NaN else Fin 0)"
  by (simp add: np_mean_def sum_list_zeros)

lemma pyslice_from_empty_iff:
  "pyslice_from xs i = [] \<longleftrightarrow> length xs \<le> slice_bound (length xs) i"
  by (simp add: pyslice_from_def)

lemma pyindex_ok:
  assumes "1 \<le> i" and "i \<le> int (length xs)"
  shows "\<exists>v. pyindex xs (- i) = Inr v"
  using assms by (simp add: pyindex_def)

lemma slice_bound_neg: "0 < k \<Longrightarrow> slice_bound n (- int k) = n - k"
  by (auto simp: slice_bound_def max_def)

lemma slice_bound_window: "1 \<le> w \<Longrightarrow> slice_bound n (- w) = n - nat w"
  using slice_bound_neg [of "nat w" n] by simp

lemma slice_bound_window_prev: "1 \<le> w \<Longrightarrow> slice_bound n (- w - 1) = n - (nat w + 1)"
proof -
  assume "1 \<le> w"
  then have e: "- w - 1 = - int (nat w + 1)" by simp
  show ?thesis by (subst e) (rule slice_bound_neg, simp)
qed

lemma slice_bound_last: "slice_bound n (- 1) = n - 1"
  using slice_bound_neg [of 1 n] by simp

subsection \<open>VolatilityBreakout at the boundary of its guard\<close>

lemma true_ranges_raises:
  assumes "i \<in> set offs" and "pyindex closes (- (i + 2)) = Inl IndexError"
  shows "true_ranges highs lows closes offs acc = Inl IndexError"
  using assms(1)
proof (induction offs arbitrary: acc)
  case Nil
  then show ?case by simp
next
  case (Cons j rest)
  show ?case
  proof (cases "j = i")
    case True
    then show ?thesis using assms(2)
      by (auto simp: bind_err_def split: sum.splits dest: pyindex_error)
  next
    case False
    then have "i \<in> set rest" using Cons.prems by simp
    then have "\<And>acc. true_ranges highs lows closes rest acc = Inl IndexError"
      by (rule Cons.IH)
    then show ?thesis
      by (auto simp: bind_err_def split: sum.splits dest: pyindex_error)
  qed
qed

text \<open>
  Claim C1. The claim: with aligned prices, highs and lows of at least
  \<open>lookback_period\<close> elements, \<open>VolatilityBreakout.analyze\<close> returns a signal and never
  raises, also when there are exactly \<open>lookback_period\<close> elements. The code does not do
  that: at the boundary it always raises IndexError. With \<open>lookback_period \<ge> 2\<close> the last
  round of the loop, \<open>i = lookback_period - 1\<close>, reads \<open>closes[-(lookback_period + 1)]\<close>,
  one bar before the first; with \<open>lookback_period = 1\<close> the loop is empty and
  \<open>closes[-2]\<close> raises.
\<close>

theorem volatility_breakout_boundary_raises:
  assumes "1 \<le> lookback_period"
    and "int (length (get_series md ''prices'')) = lookback_period"
    and "length (get_series md ''highs'') = length (get_series md ''prices'')"
    and "length (get_series md ''lows'') = length (get_series md ''prices'')"
  shows "VolatilityBreakout_analyze now lookback_period volatility_factor md = Inl IndexError"
proof (cases "lookback_period = 1")
  case True
  then have len: "length (get_series md ''prices'') = 1" using assms(2) by simp
  have "py_range 1 (min lookback_period (int (length (get_series md ''highs'')))) = []"
    using True assms(3) len by (simp add: py_range_def)
  moreover have "pyindex (get_series md ''prices'') (- 2) = Inl IndexError"
    using len by (simp add: pyindex_def)
  moreover have "\<exists>c. pyindex (get_series md ''prices'') (- 1) = Inr c"
    using len by (simp add: pyindex_def)
  ultimately show ?thesis using True len
    by (auto simp: VolatilityBreakout_analyze_def Let_def bind_err_def)
next
  case False
  then have big: "2 \<le> lookback_period" using assms(1) by simp
  have mem: "lookback_period - 1
               \<in> set (py_range 1 (min lookback_period (int (length (get_series md ''highs'')))))"
    using big assms(2,3) by (simp add: py_range_def)
  have bad: "pyindex (get_series md ''prices'') (- ((lookback_period - 1) + 2)) = Inl IndexError"
    using assms(2) big by (simp add: pyindex_def Let_def)
  have "true_ranges (get_series md ''highs'') (get_series md ''lows'') (get_series md ''prices'')
          (py_range 1 (min lookback_period (int (length (get_series md ''highs''))))) []
        = Inl IndexError"
    using mem bad by (rule true_ranges_raises)
  then show ?thesis using assms(2)
    by (simp add: VolatilityBreakout_analyze_def Let_def bind_err_def)
qed

text \<open>The input \<open>lookback_period = 2\<close> with two bars.\<close>

theorem volatility_breakout_boundary_raises_witness:
  "(1::int) \<le> 2
   \<and> int (length (get_series [(''prices'', [1, 2]), (''highs'', [1, 2]), (''lows'', [1, 2])]
                    ''prices'')) = 2
   \<and> length (get_series [(''prices'', [1, 2]), (''highs'', [1, 2]), (''lows'', [1, 2])] ''highs'')
       = length (get_series [(''prices'', [1, 2]), (''highs'', [1, 2]), (''lows'', [1, 2])]
                   ''prices'')
   \<and> length (get_series [(''prices'', [1, 2]), (''highs'', [1, 2]), (''lows'', [1, 2])] ''lows'')
       = length (get_series [(''prices'', [1, 2]), (''highs'', [1, 2]), (''lows'', [1, 2])]
                   ''prices'')
   \<and> VolatilityBreakout_analyze ''t'' 2 (3 / 2)
        [(''prices'', [1, 2]), (''highs'', [1, 2]), (''lows'', [1, 2])] = Inl IndexError"
proof -
  let ?md = "[(''prices'', [1, 2 :: rat]), (''highs'', [1, 2]), (''lows'', [1, 2])]"
  have h1: "(1::int) \<le> 2" by simp
  have h2: "int (length (get_series ?md ''prices'')) = 2" by (simp add: get_series_def)
  have h3: "length (get_series ?md ''highs'') = length (get_series ?md ''prices'')"
    by (simp add: get_series_def)
  have h4: "length (get_series ?md ''lows'') = length (get_series ?md ''prices'')"
    by (simp add: get_series_def)
  show ?thesis
    using h1 h2 h3 h4 volatility_breakout_boundary_raises [OF h1 h2 h3 h4, of "''t''" "3 / 2"]
    by blast
qed

text \<open>
  Above the boundary the method is total: with more than \<open>lookback_period\<close> aligned
  bars, and at least two, every read is in range and a signal of one of the three
  kinds is returned.
\<close>

lemma true_ranges_ok:
  assumes "\<forall>i \<in> set offs. 0 \<le> i \<and> i + 2 \<le> int (length closes)
             \<and> i + 1 \<le> int (length highs) \<and> i + 1 \<le> int (length lows)"
  shows "\<exists>r. true_ranges highs lows closes offs acc = Inr r"
  using assms
proof (induction offs arbitrary: acc)
  case Nil
  then show ?case by simp
next
  case (Cons i rest)
  then have b: "0 \<le> i" "i + 2 \<le> int (length closes)" "i + 1 \<le> int (length highs)"
    "i + 1 \<le> int (length lows)" by simp_all
  obtain h where h: "pyindex highs (- (i + 1)) = Inr h"
    using pyindex_ok [of "i + 1" highs] b by auto
  obtain l where l: "pyindex lows (- (i + 1)) = Inr l"
    using pyindex_ok [of "i + 1" lows] b by auto
  obtain c where c: "pyindex closes (- (i + 2)) = Inr c"
    using pyindex_ok [of "i + 2" closes] b by auto
  have "\<exists>r. true_ranges highs lows closes rest
               (acc @ [max (max (h - l) (abs (h - c))) (abs (l - c))]) = Inr r"
    using Cons by simp
  then show ?case using h l c by (simp add: bind_err_def)
qed

lemma volatility_breakout_total_above:
  assumes "lookback_period < int (length (get_series md ''prices''))"
    and "2 \<le> length (get_series md ''prices'')"
    and "length (get_series md ''highs'') = length (get_series md ''prices'')"
    and "length (get_series md ''lows'') = length (get_series md ''prices'')"
  shows "\<exists>d. VolatilityBreakout_analyze now lookback_period volatility_factor md = Inr d
           \<and> map_of d ''signal'' \<in> {Some (Str ''BUY''), Some (Str ''SELL''), Some (Str ''HOLD'')}"
proof -
  let ?closes = "get_series md ''prices''"
  let ?highs = "get_series md ''highs''"
  let ?lows = "get_series md ''lows''"
  have "\<forall>i \<in> set (py_range 1 (min lookback_period (int (length ?highs)))).
          0 \<le> i \<and> i + 2 \<le> int (length ?closes)
          \<and> i + 1 \<le> int (length ?highs) \<and> i + 1 \<le> int (length ?lows)"
    using assms by (auto simp: py_range_def)
  then obtain r where r: "true_ranges ?highs ?lows ?closes
        (py_range 1 (min lookback_period (int (length ?highs)))) [] = Inr r"
    using true_ranges_ok by blast
  obtain c1 where c1: "pyindex ?closes (- 1) = Inr c1"
    using pyindex_ok [of 1 ?closes] assms(2) by auto
  obtain c2 where c2: "pyindex ?closes (- 2) = Inr c2"
    using pyindex_ok [of 2 ?closes] assms(2) by auto
  show ?thesis using assms(1) r c1 c2
    by (simp add: VolatilityBreakout_analyze_def Let_def bind_err_def)
qed

subsection \<open>MovingAverageCrossover\<close>

text \<open>The slice \<open>prices[-w-1:-1]\<close> for a window \<open>w \<ge> 1\<close>.\<close>

lemma pyslice_prev:
  assumes "1 \<le> w"
  shows "pyslice xs (- w - 1) (- 1)
           = take (length xs - 1 - (length xs - (nat w + 1))) (drop (length xs - (nat w + 1)) xs)"
  using assms by (simp add: pyslice_def Let_def slice_bound_window_prev slice_bound_last)

lemma pyslice_prev_boundary:
  assumes "1 \<le> w" and "int (length xs) \<le> w"
  shows "pyslice xs (- w - 1) (- 1) = butlast xs"
proof -
  have "length xs - (nat w + 1) = 0" using assms by simp
  then show ?thesis using assms(1) by (simp add: pyslice_prev butlast_conv_take)
qed

text \<open>
  With at least \<open>w + 1\<close> prices the slice is the \<open>w\<close> prices that end at the
  second-to-last one, and the previous mean is the current mean of the series without
  its last element.
\<close>

lemma pyslice_prev_full:
  assumes "1 \<le> w" and "w + 1 \<le> int (length xs)"
  shows "pyslice xs (- w - 1) (- 1) = take (nat w) (drop (length xs - 1 - nat w) xs)"
    and "length (pyslice xs (- w - 1) (- 1)) = nat w"
proof -
  have a: "length xs - 1 - (length xs - (nat w + 1)) = nat w" using assms by linarith
  have b: "length xs - (nat w + 1) = length xs - 1 - nat w" by simp
  show "pyslice xs (- w - 1) (- 1) = take (nat w) (drop (length xs - 1 - nat w) xs)"
    using assms(1) a b by (simp add: pyslice_prev)
  then show "length (pyslice xs (- w - 1) (- 1)) = nat w"
    using assms by simp
qed

lemma ma_prev_is_ma_now_butlast:
  assumes "1 \<le> w"
  shows "ma_prev w xs = ma_now w (butlast xs)"
proof -
  have "pyslice_from (butlast xs) (- w) = drop (length xs - 1 - nat w) (take (length xs - 1) xs)"
    using assms by (simp add: pyslice_from_def slice_bound_window butlast_conv_take)
  also have "\<dots> = take (length xs - 1 - (length xs - 1 - nat w)) (drop (length xs - 1 - nat w) xs)"
    by (simp add: drop_take)
  also have "\<dots> = pyslice xs (- w - 1) (- 1)"
    using assms by (simp add: pyslice_prev)
  finally show ?thesis by (simp add: ma_prev_def ma_now_def)
qed

text \<open>
  Claim C3. The claim: whenever \<open>len(prices) \<ge> long_window\<close>, also at
  \<open>len(prices) = long_window\<close>, \<open>prev_long_ma\<close> is the mean of \<open>long_window\<close> prices
  ending at the second-to-last one. The code does not do that at the boundary: the
  guard lets exactly \<open>long_window\<close> prices through, the slice
  \<open>prices[-long_window-1:-1]\<close> is cut at the start of the list, and \<open>prev_long_ma\<close> is
  the mean of all prices but the last, that is of \<open>long_window - 1\<close> prices (nan when
  \<open>long_window = 1\<close>).
\<close>

theorem ma_prev_boundary_truncated:
  assumes "1 \<le> long_window"
    and "int (length (get_series md ''prices'')) = long_window"
  shows "MovingAverageCrossover_analyze now short_window long_window md \<noteq> insufficient_data
     \<and> ma_prev long_window (get_series md ''prices'') = np_mean (butlast (get_series md ''prices''))
     \<and> int (length (butlast (get_series md ''prices''))) = long_window - 1"
proof -
  have "pyslice (get_series md ''prices'') (- long_window - 1) (- 1)
          = butlast (get_series md ''prices'')"
    using assms by (intro pyslice_prev_boundary) simp_all
  then have "ma_prev long_window (get_series md ''prices'')
               = np_mean (butlast (get_series md ''prices''))"
    by (simp add: ma_prev_def)
  moreover have "MovingAverageCrossover_analyze now short_window long_window md
                   \<noteq> insufficient_data"
    using assms(2)
    by (simp add: MovingAverageCrossover_analyze_def insufficient_data_def Let_def
        split: prod.splits)
  ultimately show ?thesis using assms by simp
qed

text \<open>
  Windows 2 and 3 on the three prices 1, 2, 6: \<open>prev_long_ma\<close> is the mean 3/2 of the two
  prices 1, 2, the same two prices as \<open>prev_short_ma\<close>, and the method signals BUY.
\<close>

theorem ma_prev_boundary_truncated_witness:
  "(1::int) \<le> 3
   \<and> int (length (get_series [(''prices'', [1, 2, 6])] ''prices'')) = 3
   \<and> MovingAverageCrossover_analyze ''t'' 2 3 [(''prices'', [1, 2, 6])] \<noteq> insufficient_data
   \<and> ma_prev 3 (get_series [(''prices'', [1, 2, 6])] ''prices'') = Fin (3 / 2)
   \<and> map_of (MovingAverageCrossover_analyze ''t'' 2 3 [(''prices'', [1, 2, 6])]) ''signal''
       = Some (Str ''BUY'')"
proof -
  have p: "get_series [(''prices'', [1, 2, 6])] ''prices'' = [1, 2, 6]"
    by (simp add: get_series_def)
  have h1: "(1::int) \<le> 3" by simp
  have h2: "int (length (get_series [(''prices'', [1, 2, 6])] ''prices'')) = 3"
    by (simp add: p)
  have b: "map_of (MovingAverageCrossover_analyze ''t'' 2 3 [(''prices'', [1, 2, 6])]) ''signal''
       = Some (Str ''BUY'')"
    by (simp add: MovingAverageCrossover_analyze_def p ma_now_def ma_prev_def np_mean_def
        pyslice_def pyslice_from_def slice_bound_def fgt_def fge_def Let_def)
  show ?thesis
    using h1 h2 b ma_prev_boundary_truncated [OF h1 h2, of "''t''" 2]
    by (simp add: p np_mean_def)
qed


text \<open>
  Claim C6. Whenever the guard on the length is passed, the current short mean exceeds
  the current long mean, and the previous short mean (\<open>prev_short_ma\<close>, line 60) exceeds
  the previous long mean (\<open>prev_long_ma\<close>, line 61), the signal is HOLD: BUY needs
  \<open>prev_short_ma \<le> prev_long_ma\<close> and SELL needs \<open>short_ma < long_ma\<close>. No condition on
  the two windows is needed.
\<close>

theorem sustained_uptrend_holds:
  assumes "long_window \<le> int (length (get_series md ''prices''))"
    and "fgt (ma_now short_window (get_series md ''prices''))
             (ma_now long_window (get_series md ''prices''))"
    and "fgt (ma_prev short_window (get_series md ''prices''))
             (ma_prev long_window (get_series md ''prices''))"
  shows "map_of (MovingAverageCrossover_analyze now short_window long_window md) ''signal''
           = Some (Str ''HOLD'')"
  using assms(1) fgt_not_fle [OF assms(3)] fgt_not_flt [OF assms(2)]
  by (simp add: MovingAverageCrossover_analyze_def Let_def)

text \<open>Rising prices 1, 2, 3, 4 with windows 2 and 3: the means are 7/2 > 3 now and
  5/2 > 2 one sample earlier.\<close>

theorem sustained_uptrend_holds_witness:
  "3 \<le> int (length (get_series [(''prices'', [1, 2, 3, 4])] ''prices''))
   \<and> fgt (ma_now 2 (get_series [(''prices'', [1, 2, 3, 4])] ''prices''))
          (ma_now 3 (get_series [(''prices'', [1, 2, 3, 4])] ''prices''))
   \<and> fgt (ma_prev 2 (get_series [(''prices'', [1, 2, 3, 4])] ''prices''))
          (ma_prev 3 (get_series [(''prices'', [1, 2, 3, 4])] ''prices''))
   \<and> map_of (MovingAverageCrossover_analyze ''t'' 2 3 [(''prices'', [1, 2, 3, 4])]) ''signal''
           = Some (Str ''HOLD'')"
proof -
  have p: "get_series [(''prices'', [1, 2, 3, 4])] ''prices'' = [1, 2, 3, 4]"
    by (simp add: get_series_def)
  have h1: "3 \<le> int (length (get_series [(''prices'', [1, 2, 3, 4])] ''prices''))"
    by (simp add: p)
  have h2: "fgt (ma_now 2 (get_series [(''prices'', [1, 2, 3, 4])] ''prices''))
          (ma_now 3 (get_series [(''prices'', [1, 2, 3, 4])] ''prices''))"
    by (simp add: p fgt_def ma_now_def np_mean_def pyslice_from_def slice_bound_def)
  have h3: "fgt (ma_prev 2 (get_series [(''prices'', [1, 2, 3, 4])] ''prices''))
          (ma_prev 3 (get_series [(''prices'', [1, 2, 3, 4])] ''prices''))"
    by (simp add: p fgt_def ma_prev_def np_mean_def pyslice_def slice_bound_def)
  show ?thesis
    using h1 h2 h3 sustained_uptrend_holds [OF h1 h2 h3, of "''t''"] by blast
qed

subsection \<open>RSI of a series without losses\<close>

lemma losses_zero:
  assumes "\<forall>d \<in> set ds. (0::rat) \<le> d"
  shows "\<forall>x \<in> set (pyslice_from (map (\<lambda>d. - min d 0) ds) i). x = 0"
proof
  fix x assume "x \<in> set (pyslice_from (map (\<lambda>d. - min d 0) ds) i)"
  then have "x \<in> set (map (\<lambda>d. - min d 0) ds)"
    unfolding pyslice_from_def by (rule in_set_dropD)
  then show "x = 0" using assms by auto
qed

lemma rsi_window_empty_iff:
  assumes "period < int (length prices)"
  shows "slice_bound (length prices - 1) (- period) \<ge> length prices - 1
         \<longleftrightarrow> \<not> (1 \<le> period \<or> 2 - period \<le> int (length prices))"
  using assms unfolding slice_bound_def by (auto simp: min_def max_def)

text \<open>
  Claim C7, amended. For a non-decreasing series with more than \<open>period\<close> elements,
  \<open>calculate_rsi\<close> returns exactly 100 when the window \<open>losses[-period:]\<close> is not empty,
  that is when \<open>period \<ge> 1\<close> or there are at least \<open>2 - period\<close> prices; when the window
  is empty (a period of 0 or less with too few prices) both means are nan and so is the
  result.
\<close>

theorem rsi_no_losses:
  assumes "sorted prices" and "period < int (length prices)"
  shows "calculate_rsi period prices =
           (if 1 \<le> period \<or> 2 - period \<le> int (length prices) then Fin 100 else NaN)"
proof -
  let ?ds = "np_diff prices"
  let ?gains = "map (\<lambda>d. max d 0) ?ds"
  let ?losses = "map (\<lambda>d. - min d 0) ?ds"
  have nonneg: "\<forall>d \<in> set ?ds. 0 \<le> d" using assms(1) by (rule np_diff_sorted)
  have loss: "np_mean (pyslice_from ?losses (- period)) =
               (if pyslice_from ?losses (- period) = [] then NaN else Fin 0)"
    by (rule np_mean_zeros) (rule losses_zero [OF nonneg])
  have e1: "pyslice_from ?losses (- period) = []
            \<longleftrightarrow> \<not> (1 \<le> period \<or> 2 - period \<le> int (length prices))"
    using rsi_window_empty_iff [OF assms(2)]
    by (simp add: pyslice_from_empty_iff length_np_diff)
  have e2: "pyslice_from ?gains (- period) = []
            \<longleftrightarrow> \<not> (1 \<le> period \<or> 2 - period \<le> int (length prices))"
    using rsi_window_empty_iff [OF assms(2)]
    by (simp add: pyslice_from_empty_iff length_np_diff)
  show ?thesis
  proof (cases "1 \<le> period \<or> 2 - period \<le> int (length prices)")
    case True
    then have "np_mean (pyslice_from ?losses (- period)) = Fin 0"
      using loss e1 by simp
    then show ?thesis using assms(2) True
      by (simp add: calculate_rsi_def Let_def)
  next
    case False
    then have l: "np_mean (pyslice_from ?losses (- period)) = NaN"
      using loss e1 by simp
    have g: "np_mean (pyslice_from ?gains (- period)) = NaN"
      using False e2 by (simp add: np_mean_def)
    show ?thesis using assms(2) False
      by (simp add: calculate_rsi_def Let_def l g fsub_def)
  qed
qed

theorem rsi_no_losses_witness:
  "sorted [1, 2, 2, 5 :: rat] \<and> 2 < int (length [1, 2, 2, 5 :: rat])
   \<and> calculate_rsi 2 [1, 2, 2, 5] = Fin 100"
proof -
  have h1: "sorted [1, 2, 2, 5 :: rat]" by simp
  have h2: "2 < int (length [1, 2, 2, 5 :: rat])" by simp
  show ?thesis using h1 h2 rsi_no_losses [OF h1 h2] by simp
qed

text \<open>
  The claim as stated fails for \<open>period = 0\<close> and a single price: the series is
  non-decreasing and has more than 0 elements, there is no delta, the mean of the empty
  loss window is nan, \<open>nan == 0\<close> is false, and the result is nan.
\<close>

theorem rsi_no_losses_counterexample:
  "sorted [5 :: rat] \<and> 0 < int (length [5 :: rat])
   \<and> calculate_rsi 0 [5] = NaN \<and> calculate_rsi 0 [5] \<noteq> Fin 100"
  by (simp add: calculate_rsi_def np_mean_def pyslice_from_def slice_bound_def fsub_def)

section \<open>Properties of the manager\<close>

subsection \<open>Consensus\<close>

lemma consensus_of_signal:
  assumes "signals \<noteq> []"
  shows "map_of (consensus_of now signals) ''signal'' =
           Some (Str (if count_signal ''BUY'' signals > count_signal ''SELL'' signals
                         \<and> count_signal ''BUY'' signals > count_signal ''HOLD'' signals
                      then ''BUY''
                      else if count_signal ''SELL'' signals > count_signal ''BUY'' signals
                         \<and> count_signal ''SELL'' signals > count_signal ''HOLD'' signals
                      then ''SELL''
                      else ''HOLD''))"
  using assms by (simp add: consensus_of_def Let_def)

lemma consensus_of_counts:
  assumes "signals \<noteq> []"
  shows "map_of (consensus_of now signals) ''buy_count'' = Some (IntV (count_signal ''BUY'' signals))"
    and "map_of (consensus_of now signals) ''sell_count'' = Some (IntV (count_signal ''SELL'' signals))"
    and "map_of (consensus_of now signals) ''hold_count'' = Some (IntV (count_signal ''HOLD'' signals))"
  using assms by (simp_all add: consensus_of_def Let_def split: prod.splits)

text \<open>The counters of lines 96 to 98 tally the kinds: each is the number of signals of
  the collection whose \<open>signal\<close> entry is that kind.\<close>

lemma count_signal_tally:
  "count_signal kind signals =
     int (count_list (map (\<lambda>(n, s). map_of s ''signal'') signals) (Some (Str kind)))"
  unfolding count_signal_def
  by (induction signals) auto

lemma tie_run:
  "fst (run_strategies (frozen_clock ''t1'') tie_manager)
     = Inr [(''MA Crossover'', demo_signal), (''RSI Strategy'', insufficient_data)]"
  by (simp add: run_strategies_def tie_manager_def demo_signal_def analyze_def bind_err_def
      activate_def MovingAverageCrossover_init_def RSIStrategy_init_def TradingStrategy_init_def
      MovingAverageCrossover_analyze_def RSIStrategy_analyze_def get_series_def ma_now_def
      ma_prev_def np_mean_def pyslice_def pyslice_from_def slice_bound_def fgt_def fge_def
      frozen_clock_def Let_def)

text \<open>
  Claim C2, amended. When \<open>run_strategies\<close> yields no signal, \<open>get_consensus_signal\<close>
  returns the dictionary with exactly the two entries \<open>signal = HOLD\<close> and
  \<open>reason = No active strategies\<close>; it has no \<open>buy_count\<close>, \<open>sell_count\<close> or
  \<open>hold_count\<close> entry (nor \<open>timestamp\<close> or \<open>details\<close>).
\<close>

theorem empty_consensus:
  assumes "fst (run_strategies clk m) = Inr []"
  shows "fst (get_consensus_signal clk now m) =
           Inr [(''signal'', Str ''HOLD''), (''reason'', Str ''No active strategies'')]"
  using assms
  by (cases "run_strategies clk m") (simp add: get_consensus_signal_def consensus_of_def)

theorem empty_consensus_witness:
  "fst (run_strategies (frozen_clock ''t0'') StrategyManager_init) = Inr []
   \<and> fst (get_consensus_signal (frozen_clock ''t0'') ''t1'' StrategyManager_init) =
           Inr [(''signal'', Str ''HOLD''), (''reason'', Str ''No active strategies'')]"
proof -
  have h: "fst (run_strategies (frozen_clock ''t0'') StrategyManager_init) = Inr []"
    by (simp add: run_strategies_def StrategyManager_init_def)
  show ?thesis using h empty_consensus [OF h, of "''t1''"] by simp
qed

text \<open>
  The claim as stated fails on a new manager: no signal is collected, and the result
  does not have the three counters with the value zero, since it has no counters.
\<close>

theorem empty_consensus_counterexample:
  "fst (run_strategies (frozen_clock ''t0'') StrategyManager_init) = Inr []
   \<and> fst (get_consensus_signal (frozen_clock ''t0'') ''t1'' StrategyManager_init)
       = Inr [(''signal'', Str ''HOLD''), (''reason'', Str ''No active strategies'')]
   \<and> map_of (projr (fst (get_consensus_signal (frozen_clock ''t0'') ''t1'' StrategyManager_init)))
        ''buy_count'' \<noteq> Some (IntV 0)
   \<and> map_of (projr (fst (get_consensus_signal (frozen_clock ''t0'') ''t1'' StrategyManager_init)))
        ''sell_count'' \<noteq> Some (IntV 0)
   \<and> map_of (projr (fst (get_consensus_signal (frozen_clock ''t0'') ''t1'' StrategyManager_init)))
        ''hold_count'' \<noteq> Some (IntV 0)"
  by (simp add: get_consensus_signal_def run_strategies_def StrategyManager_init_def
      consensus_of_def)

text \<open>
  Claim C4. When \<open>run_strategies\<close> yields a non-empty collection of signals, let the
  tally of a kind be the number of signals of the collection whose \<open>signal\<close> entry is
  that kind. The consensus is BUY exactly when the tally of BUY exceeds the tallies of
  SELL and of HOLD, SELL exactly when the tally of SELL exceeds the tallies of BUY and
  of HOLD, and HOLD in every other case; the fields \<open>buy_count\<close>, \<open>sell_count\<close> and
  \<open>hold_count\<close> of the result are the three tallies.
\<close>

theorem majority_rule:
  assumes "fst (run_strategies clk m) = Inr signals" and "signals \<noteq> []"
  shows "\<exists>r. fst (get_consensus_signal clk now m) = Inr r
     \<and> (map_of r ''signal'' = Some (Str ''BUY'') \<longleftrightarrow>
          count_list (map (\<lambda>(n, s). map_of s ''signal'') signals) (Some (Str ''BUY''))
            > count_list (map (\<lambda>(n, s). map_of s ''signal'') signals) (Some (Str ''SELL''))
          \<and> count_list (map (\<lambda>(n, s). map_of s ''signal'') signals) (Some (Str ''BUY''))
            > count_list (map (\<lambda>(n, s). map_of s ''signal'') signals) (Some (Str ''HOLD'')))
     \<and> (map_of r ''signal'' = Some (Str ''SELL'') \<longleftrightarrow>
          count_list (map (\<lambda>(n, s). map_of s ''signal'') signals) (Some (Str ''SELL''))
            > count_list (map (\<lambda>(n, s). map_of s ''signal'') signals) (Some (Str ''BUY''))
          \<and> count_list (map (\<lambda>(n, s). map_of s ''signal'') signals) (Some (Str ''SELL''))
            > count_list (map (\<lambda>(n, s). map_of s ''signal'') signals) (Some (Str ''HOLD'')))
     \<and> (map_of r ''signal'' = Some (Str ''HOLD'') \<longleftrightarrow>
          \<not> (count_list (map (\<lambda>(n, s). map_of s ''signal'') signals) (Some (Str ''BUY''))
                > count_list (map (\<lambda>(n, s). map_of s ''signal'') signals) (Some (Str ''SELL''))
              \<and> count_list (map (\<lambda>(n, s). map_of s ''signal'') signals) (Some (Str ''BUY''))
                > count_list (map (\<lambda>(n, s). map_of s ''signal'') signals) (Some (Str ''HOLD'')))
          \<and> \<not> (count_list (map (\<lambda>(n, s). map_of s ''signal'') signals) (Some (Str ''SELL''))
                > count_list (map (\<lambda>(n, s). map_of s ''signal'') signals) (Some (Str ''BUY''))
              \<and> count_list (map (\<lambda>(n, s). map_of s ''signal'') signals) (Some (Str ''SELL''))
                > count_list (map (\<lambda>(n, s). map_of s ''signal'') signals) (Some (Str ''HOLD''))))
     \<and> map_of r ''buy_count''
         = Some (IntV (int (count_list (map (\<lambda>(n, s). map_of s ''signal'') signals)
                              (Some (Str ''BUY'')))))
     \<and> map_of r ''sell_count''
         = Some (IntV (int (count_list (map (\<lambda>(n, s). map_of s ''signal'') signals)
                              (Some (Str ''SELL'')))))
     \<and> map_of r ''hold_count''
         = Some (IntV (int (count_list (map (\<lambda>(n, s). map_of s ''signal'') signals)
                              (Some (Str ''HOLD'')))))"
proof -
  have r: "fst (get_consensus_signal clk now m) = Inr (consensus_of now signals)"
    using assms(1) by (cases "run_strategies clk m") (simp add: get_consensus_signal_def)
  show ?thesis
    unfolding r using consensus_of_counts [OF assms(2), of now]
    by (simp add: consensus_of_signal [OF assms(2)] count_signal_tally)
qed

text \<open>
  A tie: the crossover strategy signals BUY and the RSI strategy HOLD. The tallies are
  1, 0, 1; BUY does not exceed HOLD, and the consensus is HOLD.
\<close>

theorem majority_rule_witness:
  "fst (run_strategies (frozen_clock ''t1'') tie_manager)
     = Inr [(''MA Crossover'', demo_signal), (''RSI Strategy'', insufficient_data)]
   \<and> [(''MA Crossover'', demo_signal), (''RSI Strategy'', insufficient_data)] \<noteq> []
   \<and> (\<exists>r. fst (get_consensus_signal (frozen_clock ''t1'') ''t2'' tie_manager) = Inr r
        \<and> map_of r ''signal'' = Some (Str ''HOLD'')
        \<and> map_of r ''signal'' \<noteq> Some (Str ''BUY'')
        \<and> map_of r ''signal'' \<noteq> Some (Str ''SELL'')
        \<and> map_of r ''buy_count'' = Some (IntV 1)
        \<and> map_of r ''sell_count'' = Some (IntV 0)
        \<and> map_of r ''hold_count'' = Some (IntV 1))"
proof -
  have h2: "[(''MA Crossover'', demo_signal), (''RSI Strategy'', insufficient_data)] \<noteq> []"
    by simp
  have c: "count_list (map (\<lambda>(n, s). map_of s ''signal'')
                [(''MA Crossover'', demo_signal), (''RSI Strategy'', insufficient_data)])
             (Some (Str ''BUY'')) = 1"
    "count_list (map (\<lambda>(n, s). map_of s ''signal'')
                [(''MA Crossover'', demo_signal), (''RSI Strategy'', insufficient_data)])
             (Some (Str ''SELL'')) = 0"
    "count_list (map (\<lambda>(n, s). map_of s ''signal'')
                [(''MA Crossover'', demo_signal), (''RSI Strategy'', insufficient_data)])
             (Some (Str ''HOLD'')) = 1"
    by (simp_all add: demo_signal_def insufficient_data_def)
  show ?thesis
    using tie_run majority_rule [OF tie_run h2, of "''t2''"] unfolding c by auto
qed

subsection \<open>The invariant\<close>

lemma run_loop_frame:
  "active_strategies (snd (run_loop clk k names acc m)) = active_strategies m
   \<and> market_data (snd (run_loop clk k names acc m)) = market_data m
   \<and> last_update (snd (run_loop clk k names acc m)) = last_update m
   \<and> dom (strategies (snd (run_loop clk k names acc m))) = dom (strategies m)"
proof (induction names arbitrary: k acc m)
  case Nil
  then show ?case by simp
next
  case (Cons a rest)
  show ?case
  proof (cases "strategies m a")
    case None
    then show ?thesis by simp
  next
    case (Some s)
    show ?thesis
    proof (cases "analyze (clk k) s (market_data m)")
      case (Inl e)
      then show ?thesis using Some Cons.IH [of "Suc k" acc m] by simp
    next
      case (Inr p)
      obtain signal s' where p: "p = (signal, s')" by (cases p)
      let ?m1 = "m\<lparr>strategies := (strategies m)(a \<mapsto> s')\<rparr>"
      have d: "dom ((strategies m)(a \<mapsto> s')) = dom (strategies m)" using Some by auto
      have step: "run_loop clk k (a # rest) acc m
                    = run_loop clk (Suc k) rest (AList.update a signal acc) ?m1"
        using Some Inr p by simp
      have "dom (strategies (snd (run_loop clk (Suc k) rest (AList.update a signal acc) ?m1)))
              = dom (strategies ?m1)"
        using Cons.IH [of "Suc k" "AList.update a signal acc" ?m1] by blast
      also have "\<dots> = dom (strategies m)" using d by simp
      finally show ?thesis
        unfolding step using Cons.IH [of "Suc k" "AList.update a signal acc" ?m1] by simp
    qed
  qed
qed

lemma run_strategies_frame:
  "active_strategies (snd (run_strategies clk m)) = active_strategies m
   \<and> dom (strategies (snd (run_strategies clk m))) = dom (strategies m)"
  by (simp add: run_strategies_def run_loop_frame)

lemma get_consensus_signal_state:
  "snd (get_consensus_signal clk now m) = snd (run_strategies clk m)"
  by (cases "run_strategies clk m") (auto simp: get_consensus_signal_def split: sum.splits)

lemma inv_init: "manager_inv StrategyManager_init"
  by (simp add: manager_inv_def StrategyManager_init_def)

lemma inv_add: "manager_inv m \<Longrightarrow> manager_inv (add_strategy s m)"
  by (auto simp: manager_inv_def add_strategy_def)

lemma inv_remove: "manager_inv m \<Longrightarrow> manager_inv (snd (remove_strategy n m))"
  by (auto simp: manager_inv_def remove_strategy_def Let_def)

lemma inv_activate: "manager_inv m \<Longrightarrow> manager_inv (snd (activate_strategy n m))"
  by (auto simp: manager_inv_def activate_strategy_def split: option.splits)

lemma inv_deactivate: "manager_inv m \<Longrightarrow> manager_inv (snd (deactivate_strategy n m))"
  by (auto simp: manager_inv_def deactivate_strategy_def split: option.splits)

lemma inv_update: "manager_inv m \<Longrightarrow> manager_inv (update_market_data now md m)"
  by (simp add: manager_inv_def update_market_data_def)

lemma inv_run: "manager_inv m \<Longrightarrow> manager_inv (snd (run_strategies clk m))"
  by (simp add: manager_inv_def run_strategies_frame)

lemma inv_create_default: "manager_inv m \<Longrightarrow> manager_inv (create_default_strategies m)"
  by (simp add: create_default_strategies_def Let_def inv_add)

lemma inv_perform: "manager_inv m \<Longrightarrow> manager_inv (perform m c)"
  by (cases c)
     (simp_all add: inv_add inv_remove inv_activate inv_deactivate inv_update inv_run
        inv_create_default get_consensus_signal_state)

lemma inv_foldl: "manager_inv m \<Longrightarrow> manager_inv (foldl perform m calls)"
  by (induction calls arbitrary: m) (simp_all add: inv_perform)

lemma inv_manager_after: "manager_inv (manager_after calls)"
  by (simp add: manager_after_def inv_foldl inv_init)

subsection \<open>Running the strategies\<close>

lemma analyze_last_signal:
  "analyze now s md = Inr (signal, s') \<Longrightarrow> s' = s\<lparr>last_signal := Some signal\<rparr>"
  by (auto simp: analyze_def bind_err_def split: sum.splits)

lemma update_fresh: "k \<notin> fst ` set al \<Longrightarrow> AList.update k v al = al @ [(k, v)]"
  by (induction al) auto

lemma run_loop_results:
  assumes "distinct names"
    and "\<forall>n \<in> set names. strategies m n = strategies m0 n \<and> strategies m0 n \<noteq> None"
    and "market_data m = market_data m0"
    and "set names \<inter> fst ` set acc = {}"
  shows "fst (run_loop clk k names acc m)
           = Inr (acc @ List.map_filter (round_result clk m0) (zip [k..<k + length names] names))"
  using assms
proof (induction names arbitrary: k acc m)
  case Nil
  then show ?case by (simp add: List.map_filter_simps)
next
  case (Cons a rest)
  from Cons.prems(2) obtain s where s: "strategies m a = Some s" "strategies m0 a = Some s"
    by auto
  have idx: "zip [k..<k + length (a # rest)] (a # rest)
               = (k, a) # zip [Suc k..<Suc k + length rest] rest"
  proof -
    have "[k..<k + length (a # rest)] = k # [Suc k..<Suc k + length rest]"
      by (subst upt_conv_Cons) simp_all
    then show ?thesis by simp
  qed
  show ?case
  proof (cases "analyze (clk k) s (market_data m0)")
    case (Inl e)
    have "fst (run_loop clk (Suc k) rest acc m)
            = Inr (acc @ List.map_filter (round_result clk m0)
                            (zip [Suc k..<Suc k + length rest] rest))"
      using Cons.prems by (intro Cons.IH) auto
    then show ?thesis
      using s Inl Cons.prems(3) unfolding idx
      by (simp add: List.map_filter_simps round_result_def)
  next
    case (Inr p)
    obtain signal s' where p: "p = (signal, s')" by (cases p)
    let ?m1 = "m\<lparr>strategies := (strategies m)(a \<mapsto> s')\<rparr>"
    have fresh: "a \<notin> fst ` set acc" using Cons.prems(4) by auto
    have "fst (run_loop clk (Suc k) rest (acc @ [(a, signal)]) ?m1)
            = Inr ((acc @ [(a, signal)]) @ List.map_filter (round_result clk m0)
                            (zip [Suc k..<Suc k + length rest] rest))"
      using Cons.prems by (intro Cons.IH) auto
    then show ?thesis
      using s Inr p Cons.prems(3) unfolding idx
      by (simp add: List.map_filter_simps round_result_def update_fresh [OF fresh])
  qed
qed

lemma run_loop_untouched:
  "n \<notin> set names \<Longrightarrow> strategies (snd (run_loop clk k names acc m)) n = strategies m n"
proof (induction names arbitrary: k acc m)
  case Nil
  then show ?case by simp
next
  case (Cons a rest)
  then have ne: "n \<noteq> a" and nr: "n \<notin> set rest" by auto
  show ?case
  proof (cases "strategies m a")
    case None
    then show ?thesis by simp
  next
    case (Some s)
    show ?thesis
    proof (cases "analyze (clk k) s (market_data m)")
      case (Inl e)
      then show ?thesis using Some Cons.IH [OF nr, of "Suc k" acc m] by simp
    next
      case (Inr p)
      obtain signal s' where p: "p = (signal, s')" by (cases p)
      show ?thesis
        using Some Inr p ne
          Cons.IH [OF nr, of "Suc k" "AList.update a signal acc"
                     "m\<lparr>strategies := (strategies m)(a \<mapsto> s')\<rparr>"]
        by simp
    qed
  qed
qed

lemma run_loop_stored:
  assumes "distinct names"
    and "\<forall>n \<in> set names. strategies m n = strategies m0 n \<and> strategies m0 n \<noteq> None"
    and "market_data m = market_data m0"
    and "j < length names"
    and "strategies m0 (names ! j) = Some s"
  shows "strategies (snd (run_loop clk k names acc m)) (names ! j)
           = (case analyze (clk (k + j)) s (market_data m0) of
                Inl e \<Rightarrow> Some s
              | Inr (signal, s') \<Rightarrow> Some s')"
  using assms
proof (induction names arbitrary: k acc m j)
  case Nil
  then show ?case by simp
next
  case (Cons a rest)
  from Cons.prems(2) obtain sa where sa: "strategies m a = Some sa" "strategies m0 a = Some sa"
    by auto
  have nr: "a \<notin> set rest" using Cons.prems(1) by simp
  show ?case
  proof (cases j)
    case 0
    then have ss: "sa = s" using Cons.prems(5) sa by simp
    show ?thesis
    proof (cases "analyze (clk k) s (market_data m0)")
      case (Inl e)
      then show ?thesis
        using 0 sa ss Cons.prems(3) run_loop_untouched [OF nr, of clk "Suc k" acc m]
        by simp
    next
      case (Inr p)
      obtain signal s' where p: "p = (signal, s')" by (cases p)
      show ?thesis
        using 0 sa ss Inr p Cons.prems(3)
          run_loop_untouched [OF nr, of clk "Suc k" "AList.update a signal acc"
             "m\<lparr>strategies := (strategies m)(a \<mapsto> s')\<rparr>"]
        by simp
    qed
  next
    case (Suc j')
    then have j': "j' < length rest" "strategies m0 (rest ! j') = Some s"
      using Cons.prems(4,5) by simp_all
    have d: "distinct rest" using Cons.prems(1) by simp
    show ?thesis
    proof (cases "analyze (clk k) sa (market_data m)")
      case (Inl e)
      have "strategies (snd (run_loop clk (Suc k) rest acc m)) (rest ! j')
              = (case analyze (clk (Suc k + j')) s (market_data m0) of
                   Inl e \<Rightarrow> Some s | Inr (signal, s') \<Rightarrow> Some s')"
        using Cons.prems d j' by (intro Cons.IH) auto
      then show ?thesis using Suc sa Inl by simp
    next
      case (Inr p)
      obtain signal s' where p: "p = (signal, s')" by (cases p)
      let ?m1 = "m\<lparr>strategies := (strategies m)(a \<mapsto> s')\<rparr>"
      have "strategies (snd (run_loop clk (Suc k) rest (AList.update a signal acc) ?m1)) (rest ! j')
              = (case analyze (clk (Suc k + j')) s (market_data m0) of
                   Inl e \<Rightarrow> Some s | Inr (signal, s') \<Rightarrow> Some s')"
        using Cons.prems d j' nr by (intro Cons.IH) auto
      then show ?thesis using Suc sa Inr p by simp
    qed
  qed
qed

lemma map_filter_keys:
  assumes "\<forall>x y. f x = Some y \<longrightarrow> fst y = snd x"
  shows "fst ` set (List.map_filter f ps) \<subseteq> snd ` set ps"
  using assms by (force simp: List.map_filter_def)

lemma map_filter_order:
  assumes "distinct (map snd ps)" and "\<forall>x y. f x = Some y \<longrightarrow> fst y = snd x"
  shows "map fst (List.map_filter f ps)
           = filter (\<lambda>n. n \<in> fst ` set (List.map_filter f ps)) (map snd ps)"
  using assms(1)
proof (induction ps)
  case Nil
  then show ?case by (simp add: List.map_filter_simps)
next
  case (Cons p rest)
  have keys: "fst ` set (List.map_filter f rest) \<subseteq> snd ` set rest"
    using assms(2) by (rule map_filter_keys)
  have fresh: "snd p \<notin> snd ` set rest" using Cons.prems by simp
  have ih: "map fst (List.map_filter f rest)
              = filter (\<lambda>n. n \<in> fst ` set (List.map_filter f rest)) (map snd rest)"
    using Cons by simp
  show ?case
  proof (cases "f p")
    case None
    have "snd p \<notin> fst ` set (List.map_filter f rest)" using keys fresh by blast
    then show ?thesis using None ih by (simp add: List.map_filter_simps)
  next
    case (Some y)
    then have y: "fst y = snd p" using assms(2) by blast
    have "filter (\<lambda>n. n \<in> insert (snd p) (fst ` set (List.map_filter f rest))) (map snd rest)
            = filter (\<lambda>n. n \<in> fst ` set (List.map_filter f rest)) (map snd rest)"
    proof (rule filter_cong)
      fix n assume "n \<in> set (map snd rest)"
      moreover have "snd p \<notin> set (map snd rest)" using Cons.prems by simp
      ultimately have "n \<noteq> snd p" by blast
      then show "(n \<in> insert (snd p) (fst ` set (List.map_filter f rest)))
                   = (n \<in> fst ` set (List.map_filter f rest))" by simp
    qed simp
    then show ?thesis using Some y ih by (simp add: List.map_filter_simps)
  qed
qed

lemma map_filter_lookup:
  assumes "distinct (map snd ps)" and "\<forall>x y. f x = Some y \<longrightarrow> fst y = snd x"
    and "x \<in> set ps"
  shows "map_of (List.map_filter f ps) (snd x) = map_option snd (f x)"
  using assms(1,3)
proof (induction ps)
  case Nil
  then show ?case by simp
next
  case (Cons p rest)
  have keys: "fst ` set (List.map_filter f rest) \<subseteq> snd ` set rest"
    using assms(2) by (rule map_filter_keys)
  have fresh: "snd p \<notin> snd ` set rest" using Cons.prems by simp
  show ?case
  proof (cases "x = p")
    case True
    show ?thesis
    proof (cases "f p")
      case None
      have "snd p \<notin> fst ` set (List.map_filter f rest)" using keys fresh by blast
      then have "map_of (List.map_filter f rest) (snd p) = None"
        by (simp add: map_of_eq_None_iff)
      then show ?thesis using True None by (simp add: List.map_filter_simps)
    next
      case (Some y)
      then have "fst y = snd p" using assms(2) by blast
      then show ?thesis using True Some by (cases y) (simp add: List.map_filter_simps)
    qed
  next
    case False
    then have xr: "x \<in> set rest" using Cons.prems by simp
    then have ne: "snd x \<noteq> snd p" using fresh by (metis imageI)
    have ih: "map_of (List.map_filter f rest) (snd x) = map_option snd (f x)"
      using Cons xr by simp
    show ?thesis
    proof (cases "f p")
      case None
      then show ?thesis using ih by (simp add: List.map_filter_simps)
    next
      case (Some y)
      then have "fst y = snd p" using assms(2) by blast
      then show ?thesis using Some ih ne by (cases y) (simp add: List.map_filter_simps)
    qed
  qed
qed

lemma round_result_key: "\<forall>x y. round_result clk m x = Some y \<longrightarrow> fst y = snd x"
  by (auto simp: round_result_def split: option.splits sum.splits)

lemma run_strategies_results:
  assumes "manager_inv m" and "market_data m \<noteq> []"
  shows "fst (run_strategies clk m)
           = Inr (List.map_filter (round_result clk m)
                    (zip [0..<length (active_strategies m)] (active_strategies m)))"
proof -
  have "fst (run_loop clk 0 (active_strategies m) [] m)
          = Inr ([] @ List.map_filter (round_result clk m)
                    (zip [0..<0 + length (active_strategies m)] (active_strategies m)))"
    using assms(1) by (intro run_loop_results) (auto simp: manager_inv_def)
  then show ?thesis using assms(2) by (simp add: run_strategies_def)
qed

lemma run_strategies_spec:
  assumes "manager_inv m" and "market_data m \<noteq> []"
  shows "\<exists>results. fst (run_strategies clk m) = Inr results
     \<and> map fst results = filter (\<lambda>n. n \<in> fst ` set results) (active_strategies m)
     \<and> (\<forall>j < length (active_strategies m).
          \<exists>s. strategies m (active_strategies m ! j) = Some s
            \<and> (case analyze (clk j) s (market_data m) of
                 Inl e \<Rightarrow> map_of results (active_strategies m ! j) = None
                         \<and> strategies (snd (run_strategies clk m)) (active_strategies m ! j) = Some s
               | Inr (signal, s') \<Rightarrow> map_of results (active_strategies m ! j) = Some signal
                         \<and> strategies (snd (run_strategies clk m)) (active_strategies m ! j)
                             = Some (s\<lparr>last_signal := Some signal\<rparr>)))"
proof -
  let ?A = "active_strategies m"
  let ?ps = "zip [0..<length ?A] ?A"
  let ?res = "List.map_filter (round_result clk m) ?ps"
  have d: "distinct ?A" and reg: "set ?A \<subseteq> dom (strategies m)"
    using assms(1) by (simp_all add: manager_inv_def)
  have sndps: "map snd ?ps = ?A" by (simp add: map_snd_zip)
  have dps: "distinct (map snd ?ps)" using d sndps by simp
  have r: "fst (run_strategies clk m) = Inr ?res"
    using assms by (rule run_strategies_results)
  have order: "map fst ?res = filter (\<lambda>n. n \<in> fst ` set ?res) ?A"
    using map_filter_order [OF dps round_result_key, of clk m] sndps by simp
  have each: "\<exists>s. strategies m (?A ! j) = Some s
            \<and> (case analyze (clk j) s (market_data m) of
                 Inl e \<Rightarrow> map_of ?res (?A ! j) = None
                         \<and> strategies (snd (run_strategies clk m)) (?A ! j) = Some s
               | Inr (signal, s') \<Rightarrow> map_of ?res (?A ! j) = Some signal
                         \<and> strategies (snd (run_strategies clk m)) (?A ! j)
                             = Some (s\<lparr>last_signal := Some signal\<rparr>))"
    if j: "j < length ?A" for j
  proof -
    from reg j obtain s where s: "strategies m (?A ! j) = Some s" by force
    have mem: "(j, ?A ! j) \<in> set ?ps" using j by (force simp: set_zip)
    have look: "map_of ?res (?A ! j) = map_option snd (round_result clk m (j, ?A ! j))"
      using map_filter_lookup [OF dps round_result_key mem] by simp
    have st: "strategies (snd (run_strategies clk m)) (?A ! j)
               = (case analyze (clk (0 + j)) s (market_data m) of
                    Inl e \<Rightarrow> Some s | Inr (signal, s') \<Rightarrow> Some s')"
      using assms(2) d reg j s
      by (simp only: run_strategies_def if_False) (intro run_loop_stored, auto)
    show ?thesis
    proof (cases "analyze (clk j) s (market_data m)")
      case (Inl e)
      then show ?thesis using s look st by (simp add: round_result_def)
    next
      case (Inr p)
      obtain signal s' where p: "p = (signal, s')" by (cases p)
      have "s' = s\<lparr>last_signal := Some signal\<rparr>"
        using Inr p by (intro analyze_last_signal) simp
      then show ?thesis using s look st Inr p by (simp add: round_result_def)
    qed
  qed
  show ?thesis using r order each by blast
qed

lemma demo_calls_state:
  "active_strategies (manager_after demo_calls) = [''Broken'', ''MA Crossover'']"
  "market_data (manager_after demo_calls) = [(''prices'', [3, 2, 1, 5])]"
  by (simp_all add: manager_after_def demo_calls_def add_strategy_def activate_strategy_def
      update_market_data_def TradingStrategy_init_def MovingAverageCrossover_init_def
      StrategyManager_init_def activate_def)

lemma demo_calls_run:
  "fst (run_strategies (frozen_clock ''t1'') (manager_after demo_calls))
     = Inr [(''MA Crossover'', demo_signal)]"
  by (simp add: manager_after_def demo_calls_def add_strategy_def activate_strategy_def
      update_market_data_def TradingStrategy_init_def MovingAverageCrossover_init_def
      StrategyManager_init_def activate_def run_strategies_def analyze_def bind_err_def
      MovingAverageCrossover_analyze_def get_series_def ma_now_def ma_prev_def np_mean_def
      pyslice_def pyslice_from_def slice_bound_def fgt_def fge_def frozen_clock_def Let_def
      demo_signal_def)

text \<open>
  Claim C5. In every manager state with market data, \<open>run_strategies\<close> does not raise.
  Round \<open>j\<close> of its loop evaluates the \<open>j\<close>-th name of the active list, a registered
  strategy, on the current snapshot: if \<open>analyze\<close> raises, the name has no entry in
  the result and the strategy object is unchanged; otherwise the name is mapped to the
  signal, which the object also stores. The keys of the result are in the order of the
  active list.
\<close>

theorem run_strategies_isolates_faults:
  assumes "market_data (manager_after calls) \<noteq> []"
  shows "\<exists>results. fst (run_strategies clk (manager_after calls)) = Inr results
     \<and> map fst results
         = filter (\<lambda>n. n \<in> fst ` set results) (active_strategies (manager_after calls))
     \<and> (\<forall>j < length (active_strategies (manager_after calls)).
          \<exists>s. strategies (manager_after calls) (active_strategies (manager_after calls) ! j)
                 = Some s
            \<and> (case analyze (clk j) s (market_data (manager_after calls)) of
                 Inl e \<Rightarrow>
                   map_of results (active_strategies (manager_after calls) ! j) = None
                   \<and> strategies (snd (run_strategies clk (manager_after calls)))
                        (active_strategies (manager_after calls) ! j) = Some s
               | Inr (signal, s') \<Rightarrow>
                   map_of results (active_strategies (manager_after calls) ! j) = Some signal
                   \<and> strategies (snd (run_strategies clk (manager_after calls)))
                        (active_strategies (manager_after calls) ! j)
                       = Some (s\<lparr>last_signal := Some signal\<rparr>)))"
  using run_strategies_spec [OF inv_manager_after assms] .

text \<open>
  With the calls \<open>demo_calls\<close> the active list is \<open>Broken\<close>, \<open>MA Crossover\<close>; the first
  raises NotImplementedError, and the result has the single entry of the second.
\<close>

theorem run_strategies_isolates_faults_witness:
  "market_data (manager_after demo_calls) \<noteq> []
   \<and> fst (run_strategies (frozen_clock ''t1'') (manager_after demo_calls))
       = Inr [(''MA Crossover'', demo_signal)]
   \<and> (\<exists>results. fst (run_strategies (frozen_clock ''t1'') (manager_after demo_calls)) = Inr results
     \<and> map fst results
         = filter (\<lambda>n. n \<in> fst ` set results) (active_strategies (manager_after demo_calls))
     \<and> (\<forall>j < length (active_strategies (manager_after demo_calls)).
          \<exists>s. strategies (manager_after demo_calls) (active_strategies (manager_after demo_calls) ! j)
                 = Some s
            \<and> (case analyze ((frozen_clock ''t1'') j) s (market_data (manager_after demo_calls)) of
                 Inl e \<Rightarrow>
                   map_of results (active_strategies (manager_after demo_calls) ! j) = None
                   \<and> strategies (snd (run_strategies (frozen_clock ''t1'') (manager_after demo_calls)))
                        (active_strategies (manager_after demo_calls) ! j) = Some s
               | Inr (signal, s') \<Rightarrow>
                   map_of results (active_strategies (manager_after demo_calls) ! j) = Some signal
                   \<and> strategies (snd (run_strategies (frozen_clock ''t1'') (manager_after demo_calls)))
                        (active_strategies (manager_after demo_calls) ! j)
                       = Some (s\<lparr>last_signal := Some signal\<rparr>))))"
proof -
  have h: "market_data (manager_after demo_calls) \<noteq> []" by (simp add: demo_calls_state)
  show ?thesis
    using h demo_calls_run run_strategies_isolates_faults [OF h, of "frozen_clock ''t1''"]
    by blast
qed

text \<open>
  Claim C9, amended. When a name of the active list is overwritten by \<open>add_strategy\<close>, the
  active list is unchanged, so the name stays in it, and the registry holds the new
  object. With market data set, the next \<open>run_strategies\<close> evaluates that object in the
  round of its name: the result has its signal under the name (or no entry if it
  raises), and the registry then holds the new object with that signal stored and its
  other fields, the flag \<open>active\<close> among them, as they were. The flag is never read.
  Without market data \<open>run_strategies\<close> returns at line 74 and evaluates no strategy.
\<close>

theorem overwrite_keeps_active:
  assumes "name s \<in> set (active_strategies (manager_after calls))"
    and "market_data (manager_after calls) \<noteq> []"
  shows "active_strategies (add_strategy s (manager_after calls))
           = active_strategies (manager_after calls)
     \<and> strategies (add_strategy s (manager_after calls)) (name s) = Some s
     \<and> (\<exists>results. fst (run_strategies clk (add_strategy s (manager_after calls))) = Inr results
          \<and> (\<exists>j < length (active_strategies (manager_after calls)).
                active_strategies (manager_after calls) ! j = name s
                \<and> (case analyze (clk j) s (market_data (manager_after calls)) of
                     Inl e \<Rightarrow> map_of results (name s) = None
                   | Inr (signal, s') \<Rightarrow>
                       map_of results (name s) = Some signal
                       \<and> strategies (snd (run_strategies clk (add_strategy s (manager_after calls))))
                            (name s) = Some (s\<lparr>last_signal := Some signal\<rparr>))))"
proof -
  let ?m = "manager_after calls"
  let ?m' = "add_strategy s ?m"
  have a: "active_strategies ?m' = active_strategies ?m" by (simp add: add_strategy_def)
  have md: "market_data ?m' = market_data ?m" by (simp add: add_strategy_def)
  have reg: "strategies ?m' (name s) = Some s" by (simp add: add_strategy_def)
  have inv: "manager_inv ?m'" by (rule inv_add) (rule inv_manager_after)
  have md': "market_data ?m' \<noteq> []" using assms(2) md by simp
  obtain j where j: "j < length (active_strategies ?m)"
    and n: "active_strategies ?m ! j = name s"
    using assms(1) by (auto simp: in_set_conv_nth)
  obtain results where r: "fst (run_strategies clk ?m') = Inr results"
    and each: "\<forall>j < length (active_strategies ?m').
          \<exists>s0. strategies ?m' (active_strategies ?m' ! j) = Some s0
            \<and> (case analyze (clk j) s0 (market_data ?m') of
                 Inl e \<Rightarrow> map_of results (active_strategies ?m' ! j) = None
                   \<and> strategies (snd (run_strategies clk ?m')) (active_strategies ?m' ! j) = Some s0
               | Inr (signal, s') \<Rightarrow>
                   map_of results (active_strategies ?m' ! j) = Some signal
                   \<and> strategies (snd (run_strategies clk ?m')) (active_strategies ?m' ! j)
                       = Some (s0\<lparr>last_signal := Some signal\<rparr>))"
    using run_strategies_spec [OF inv md', of clk] by blast
  from each j a obtain s0 where s0: "strategies ?m' (active_strategies ?m' ! j) = Some s0"
    and c: "case analyze (clk j) s0 (market_data ?m') of
               Inl e \<Rightarrow> map_of results (active_strategies ?m' ! j) = None
                 \<and> strategies (snd (run_strategies clk ?m')) (active_strategies ?m' ! j) = Some s0
             | Inr (signal, s') \<Rightarrow>
                 map_of results (active_strategies ?m' ! j) = Some signal
                 \<and> strategies (snd (run_strategies clk ?m')) (active_strategies ?m' ! j)
                     = Some (s0\<lparr>last_signal := Some signal\<rparr>)"
    by auto
  have "s0 = s" using s0 reg a n by simp
  then have "case analyze (clk j) s (market_data ?m) of
          Inl e \<Rightarrow> map_of results (name s) = None
        | Inr (signal, s') \<Rightarrow>
            map_of results (name s) = Some signal
            \<and> strategies (snd (run_strategies clk ?m')) (name s)
                = Some (s\<lparr>last_signal := Some signal\<rparr>)"
    using c a n md by (auto split: sum.splits)
  then show ?thesis using a reg r j n by blast
qed

text \<open>A new crossover strategy, whose flag is False, replaces the active one of \<open>demo_calls\<close>.\<close>

theorem overwrite_keeps_active_witness:
  "name (MovingAverageCrossover_init 1 2 None) \<in> set (active_strategies (manager_after demo_calls))
   \<and> market_data (manager_after demo_calls) \<noteq> []
   \<and> \<not> active (MovingAverageCrossover_init 1 2 None)
   \<and> active_strategies (add_strategy (MovingAverageCrossover_init 1 2 None) (manager_after demo_calls))
           = active_strategies (manager_after demo_calls)
   \<and> strategies (add_strategy (MovingAverageCrossover_init 1 2 None) (manager_after demo_calls))
        (name (MovingAverageCrossover_init 1 2 None)) = Some (MovingAverageCrossover_init 1 2 None)
   \<and> (\<exists>results. fst (run_strategies (frozen_clock ''t1'')
                       (add_strategy (MovingAverageCrossover_init 1 2 None)
                          (manager_after demo_calls))) = Inr results
          \<and> (\<exists>j < length (active_strategies (manager_after demo_calls)).
                active_strategies (manager_after demo_calls) ! j
                  = name (MovingAverageCrossover_init 1 2 None)
                \<and> (case analyze (frozen_clock ''t1'' j) (MovingAverageCrossover_init 1 2 None)
                        (market_data (manager_after demo_calls)) of
                   Inl e \<Rightarrow> map_of results (name (MovingAverageCrossover_init 1 2 None)) = None
                 | Inr (signal, s') \<Rightarrow>
                     map_of results (name (MovingAverageCrossover_init 1 2 None)) = Some signal
                     \<and> strategies (snd (run_strategies (frozen_clock ''t1'')
                                          (add_strategy (MovingAverageCrossover_init 1 2 None)
                                             (manager_after demo_calls))))
                          (name (MovingAverageCrossover_init 1 2 None))
                         = Some ((MovingAverageCrossover_init 1 2 None)
                                   \<lparr>last_signal := Some signal\<rparr>))))"
proof -
  have h1: "name (MovingAverageCrossover_init 1 2 None)
              \<in> set (active_strategies (manager_after demo_calls))"
    by (simp add: demo_calls_state MovingAverageCrossover_init_def TradingStrategy_init_def)
  have h2: "market_data (manager_after demo_calls) \<noteq> []" by (simp add: demo_calls_state)
  have f: "\<not> active (MovingAverageCrossover_init 1 2 None)"
    by (simp add: MovingAverageCrossover_init_def TradingStrategy_init_def)
  show ?thesis
    using h1 h2 f overwrite_keeps_active [OF h1 h2, of "frozen_clock ''t1''"] by blast
qed

lemma idle_calls_state:
  "active_strategies (manager_after idle_calls) = [''MA Crossover'']"
  "market_data (manager_after idle_calls) = []"
  by (simp_all add: manager_after_def idle_calls_def add_strategy_def activate_strategy_def
      MovingAverageCrossover_init_def TradingStrategy_init_def StrategyManager_init_def
      activate_def)

text \<open>
  The claim as stated fails before the first \<open>update_market_data\<close>: the active
  crossover strategy is overwritten by a new one, the name stays in the active list,
  but the next \<open>run_strategies\<close> returns the empty mapping and leaves the new object
  without a signal, although its \<open>analyze\<close> would return one.
\<close>

theorem overwrite_keeps_active_counterexample:
  "name (MovingAverageCrossover_init 1 2 None) \<in> set (active_strategies (manager_after idle_calls))
   \<and> \<not> active (MovingAverageCrossover_init 1 2 None)
   \<and> name (MovingAverageCrossover_init 1 2 None)
        \<in> set (active_strategies (add_strategy (MovingAverageCrossover_init 1 2 None)
                                      (manager_after idle_calls)))
   \<and> fst (run_strategies (frozen_clock ''t1'')
            (add_strategy (MovingAverageCrossover_init 1 2 None) (manager_after idle_calls)))
       = Inr []
   \<and> strategies (snd (run_strategies (frozen_clock ''t1'')
            (add_strategy (MovingAverageCrossover_init 1 2 None) (manager_after idle_calls))))
        ''MA Crossover'' = Some (MovingAverageCrossover_init 1 2 None)
   \<and> last_signal (MovingAverageCrossover_init 1 2 None) = None
   \<and> analyze ''t1'' (MovingAverageCrossover_init 1 2 None)
        (market_data (add_strategy (MovingAverageCrossover_init 1 2 None)
                        (manager_after idle_calls)))
       = Inr (insufficient_data,
              (MovingAverageCrossover_init 1 2 None)\<lparr>last_signal := Some insufficient_data\<rparr>)"
  by (simp add: idle_calls_state run_strategies_def add_strategy_def manager_after_def
      idle_calls_def activate_strategy_def StrategyManager_init_def activate_def
      MovingAverageCrossover_init_def TradingStrategy_init_def analyze_def bind_err_def
      MovingAverageCrossover_analyze_def get_series_def Let_def)

subsection \<open>Lifecycle\<close>

text \<open>
  Claim C8. From every manager state, after \<open>add_strategy(s)\<close>, deactivating and
  removing \<open>s.name\<close> in either order leaves the name neither in the registry nor in the
  active list.
\<close>

theorem add_deactivate_remove:
  "name s \<notin> dom (strategies (snd (remove_strategy (name s)
        (snd (deactivate_strategy (name s) (add_strategy s (manager_after calls)))))))
   \<and> name s \<notin> set (active_strategies (snd (remove_strategy (name s)
        (snd (deactivate_strategy (name s) (add_strategy s (manager_after calls)))))))
   \<and> name s \<notin> dom (strategies (snd (deactivate_strategy (name s)
        (snd (remove_strategy (name s) (add_strategy s (manager_after calls)))))))
   \<and> name s \<notin> set (active_strategies (snd (deactivate_strategy (name s)
        (snd (remove_strategy (name s) (add_strategy s (manager_after calls)))))))"
proof -
  let ?m = "add_strategy s (manager_after calls)"
  have inv: "manager_inv ?m" by (rule inv_add) (rule inv_manager_after)
  then have d: "distinct (active_strategies ?m)" by (simp add: manager_inv_def)
  have reg: "strategies ?m (name s) = Some s" by (simp add: add_strategy_def)
  show ?thesis using d reg
    by (auto simp: remove_strategy_def deactivate_strategy_def Let_def split: option.splits)
qed

text \<open>
  Claim C10. The three constructors set the name to a constant of the class whatever
  \<open>config\<close> is; two instances of one class added to a manager collide, the registry
  keeps the second under the class name; after \<open>create_default_strategies\<close> on a new
  manager three of the five strategies are registered, the later one of each pair.
\<close>

theorem constructor_names_fixed:
  "name (MovingAverageCrossover_init sw lw cfg) = ''MA Crossover''
   \<and> name (RSIStrategy_init p os ob cfg) = ''RSI Strategy''
   \<and> name (VolatilityBreakout_init lp vf cfg) = ''Volatility Breakout''
   \<and> strategies (add_strategy (MovingAverageCrossover_init sw2 lw2 cfg2)
        (add_strategy (MovingAverageCrossover_init sw1 lw1 cfg1) m))
      = (strategies m)(''MA Crossover'' \<mapsto> MovingAverageCrossover_init sw2 lw2 cfg2)
   \<and> strategies (add_strategy (RSIStrategy_init p2 os2 ob2 cfg2)
        (add_strategy (RSIStrategy_init p1 os1 ob1 cfg1) m))
      = (strategies m)(''RSI Strategy'' \<mapsto> RSIStrategy_init p2 os2 ob2 cfg2)
   \<and> strategies (add_strategy (VolatilityBreakout_init lp2 vf2 cfg2)
        (add_strategy (VolatilityBreakout_init lp1 vf1 cfg1) m))
      = (strategies m)(''Volatility Breakout'' \<mapsto> VolatilityBreakout_init lp2 vf2 cfg2)
   \<and> strategies (create_default_strategies StrategyManager_init)
      = [''MA Crossover'' \<mapsto>
           MovingAverageCrossover_init 20 50 (Some [(''name'', Str ''MA Crossover Medium'')]),
         ''RSI Strategy'' \<mapsto>
           RSIStrategy_init 7 25 75 (Some [(''name'', Str ''RSI Aggressive'')]),
         ''Volatility Breakout'' \<mapsto> VolatilityBreakout_init 20 (3 / 2) None]
   \<and> dom (strategies (create_default_strategies StrategyManager_init))
      = {''MA Crossover'', ''RSI Strategy'', ''Volatility Breakout''}"
  by (auto simp: MovingAverageCrossover_init_def RSIStrategy_init_def VolatilityBreakout_init_def
      TradingStrategy_init_def add_strategy_def create_default_strategies_def
      StrategyManager_init_def Let_def)

end
